theory Spec2Isabelle
  imports Complex_Main "HOL-Library.Word" "HOL-Library.Log_Nat"
begin

unbundle bit_operations_syntax

section \<open>Python values used by main.py\<close>

subsection \<open>Floats\<close>

text \<open>
  A Python float is an IEEE 754 binary64 number. It is modelled by the rational number it
  denotes; every arithmetic operation computes the exact rational result and rounds it to
  the nearest number with a 53-bit significand, ties to even (\<open>fl\<close>). The exponent is
  not bounded: the magnitudes that main.py computes lie between \<open>2 ^ -20\<close> and \<open>2 ^ 12\<close>,
  far from binary64's overflow and underflow thresholds, and there the two agree.
\<close>

type_synonym pyfloat = rat

definition round_half_even :: "rat \<Rightarrow> int" where
  "round_half_even x =
     (let f = \<lfloor>x\<rfloor>; d = x - of_int f
      in if d < 1 / 2 then f
         else if 1 / 2 < d then f + 1
         else if even f then f else f + 1)"

text \<open>\<open>binade x\<close> is the exponent \<open>k\<close> with \<open>2 ^ k \<le> \<bar>x\<bar> < 2 ^ (k + 1)\<close>, for \<open>x \<noteq> 0\<close>.\<close>

definition binade :: "rat \<Rightarrow> int" where
  "binade x =
     (let (p, q) = quotient_of \<bar>x\<bar>; k = bitlen p - bitlen q
      in if 2 powi k \<le> \<bar>x\<bar> then k else k - 1)"

definition fl :: "rat \<Rightarrow> pyfloat" where
  "fl x =
     (if x = 0 then 0
      else let u = 2 powi (binade x - 52)
           in of_int (round_half_even (x / u)) * u)"

definition float_of_int :: "int \<Rightarrow> pyfloat" where
  "float_of_int n = fl (of_int n)"

definition float_add :: "pyfloat \<Rightarrow> pyfloat \<Rightarrow> pyfloat" where
  "float_add a b = fl (a + b)"

definition float_sub :: "pyfloat \<Rightarrow> pyfloat \<Rightarrow> pyfloat" where
  "float_sub a b = fl (a - b)"

definition float_mul :: "pyfloat \<Rightarrow> pyfloat \<Rightarrow> pyfloat" where
  "float_mul a b = fl (a * b)"

text \<open>The divisors in main.py are the non-zero literals \<open>16.0\<close>, \<open>5\<close> and \<open>1e6\<close>.\<close>

definition float_truediv :: "pyfloat \<Rightarrow> pyfloat \<Rightarrow> pyfloat" where
  "float_truediv a b = fl (a / b)"

subsection \<open>Exceptions\<close>

datatype exn =
    SerialException string
  | StructError string
  | TypeError string
  | OSError string
  | RequestException string
  | KeyboardInterrupt

text \<open>\<open>except Exception\<close> catches every exception class but the ones derived from
  \<open>BaseException\<close> alone, of which \<open>KeyboardInterrupt\<close> is the one that occurs here.\<close>

fun is_Exception :: "exn \<Rightarrow> bool" where
  "is_Exception KeyboardInterrupt = False"
| "is_Exception _ = True"

fun exn_str :: "exn \<Rightarrow> string" where
  "exn_str (SerialException m) = m"
| "exn_str (StructError m) = m"
| "exn_str (TypeError m) = m"
| "exn_str (OSError m) = m"
| "exn_str (RequestException m) = m"
| "exn_str KeyboardInterrupt = []"

subsection \<open>Dates, times and text\<close>

record datetime =
  year :: nat
  month :: nat
  day :: nat
  hour :: nat
  minute :: nat
  second :: nat
  microsecond :: nat

text \<open>The ranges that Python's \<open>datetime\<close> class guarantees for its fields.\<close>

definition valid_datetime :: "datetime \<Rightarrow> bool" where
  "valid_datetime t \<longleftrightarrow>
     1 \<le> year t \<and> year t \<le> 9999 \<and> 1 \<le> month t \<and> month t \<le> 12 \<and>
     1 \<le> day t \<and> day t \<le> 31 \<and> hour t < 24 \<and> minute t < 60 \<and> second t < 60 \<and>
     microsecond t < 1000000"

definition digit :: "nat \<Rightarrow> char" where
  "digit d = ''0123456789'' ! (d mod 10)"

fun digits10 :: "nat \<Rightarrow> string" where
  "digits10 n = (if n < 10 then [digit n] else digits10 (n div 10) @ [digit (n mod 10)])"

definition zero_pad :: "nat \<Rightarrow> nat \<Rightarrow> string" where
  "zero_pad w n = replicate (w - length (digits10 n)) CHR ''0'' @ digits10 n"

text \<open>\<open>strftime('%Y%m%d:%H:%M')\<close>. Years below 1000, which some C libraries render without
  padding, do not occur as clock readings.\<close>

definition strftime :: "datetime \<Rightarrow> string" where
  "strftime t =
     zero_pad 4 (year t) @ zero_pad 2 (month t) @ zero_pad 2 (day t) @ '':'' @
     zero_pad 2 (hour t) @ '':'' @ zero_pad 2 (minute t)"

text \<open>The format specification \<open>:.1f\<close> applied to a float: the decimal numeral with one
  fractional digit nearest to the exact value, ties to even.\<close>

definition format_1f :: "pyfloat \<Rightarrow> string" where
  "format_1f x =
     (let n = nat (round_half_even (\<bar>x\<bar> * 10))
      in (if x < 0 then ''-'' else []) @ digits10 (n div 10) @ ''.'' @ [digit (n mod 10)])"

text \<open>The degree sign U+00B0 and the line feed, as characters of a Python \<open>str\<close>.\<close>

definition degree_sign :: char where
  "degree_sign = CHR 0xB0"

definition newline :: char where
  "newline = CHR 0x0A"

section \<open>Configuration\<close>

datatype platform = Win | Darwin | Posix

fun PORT :: "platform \<Rightarrow> string" where
  "PORT Win = ''COM3''"
| "PORT Darwin = ''/dev/tty.usbserial-0001''"
| "PORT Posix = ''/dev/ttyUSB0''"

definition BAUD :: nat where
  "BAUD = 9600"

definition APPS_SCRIPT_URL :: string where
  "APPS_SCRIPT_URL = ''https://script.google.com/macros/s/AKfycbz-fTETpM-3AmclY_cJ2O3hC5OJE1q8XowPNXluFz-c184h4gK5OC03TeZcZodqNKfjkA/exec''"

definition PACKET_LEN :: nat where
  "PACKET_LEN = 18"

definition TEMP1_OFFSET :: nat where
  "TEMP1_OFFSET = 9"

section \<open>Reading the device\<close>

type_synonym byte = "8 word"

text \<open>\<open>struct.unpack_from('<h', data, off)[0]\<close>: the two bytes at \<open>off\<close>, low byte first,
  read as a two's complement 16-bit integer; \<open>struct.error\<close> when fewer than two bytes
  remain.\<close>

definition unpack_from_h :: "byte list \<Rightarrow> nat \<Rightarrow> exn + int" where
  "unpack_from_h data off =
     (if length data < off + 2
      then Inl (StructError ''unpack_from requires a buffer of at least 2 bytes'')
      else Inr (sint ((ucast (data ! off) :: 16 word) OR
                      push_bit 8 (ucast (data ! (off + 1)) :: 16 word))))"

text \<open>
  The serial exchange of \<open>read_temperature_f\<close> (flush, write the command, wait, read) either
  raises, or leaves the bytes the device has sent by then; \<open>ser.read(64)\<close> returns at most
  64 of them.
\<close>

definition read_temperature_f :: "exn + byte list \<Rightarrow> exn + pyfloat option" where
  "read_temperature_f ser =
     (case ser of
        Inl e \<Rightarrow> Inl e
      | Inr buf \<Rightarrow>
          let data = take 64 buf
          in if length data < PACKET_LEN then Inr None
             else (case unpack_from_h data TEMP1_OFFSET of
                     Inl e \<Rightarrow> Inl e
                   | Inr raw \<Rightarrow>
                       let celsius = float_truediv (float_of_int raw) 16
                       in Inr (Some (float_add
                                 (float_truediv (float_mul celsius (float_of_int 9))
                                    (float_of_int 5))
                                 (float_of_int 32)))))"

section \<open>The scheduler\<close>

text \<open>\<open>seconds_to_next_quarter\<close>, as a function of the value of \<open>datetime.now()\<close>.\<close>

definition seconds_to_next_quarter :: "datetime \<Rightarrow> pyfloat" where
  "seconds_to_next_quarter now =
     (let elapsed =
            float_add (float_of_int (int (minute now mod 15) * 60 + int (second now)))
              (float_truediv (float_of_int (int (microsecond now))) 1000000)
      in float_sub (float_of_int (15 * 60)) elapsed)"

section \<open>Logging and reporting\<close>

text \<open>What the process does to the outside world, in order.\<close>

datatype event =
    Print string
  | PrintNextLog pyfloat
  | Sleep pyfloat
  | FileOpen string
  | FileWrite string
  | FileClose
  | HttpPost string string
  | SerialClose

datatype file_outcome = OpenRaises exn | WriteRaises exn | WriteOk

text \<open>
  What the outside world does during one call of \<open>log_temperature\<close>: the serial exchange,
  the clock at formatting time, the fate of the append to the log file, and whether
  \<open>requests.post\<close> raises.
\<close>

record tick_env =
  ser_io :: "exn + byte list"
  now_fmt :: datetime
  file_io :: file_outcome
  post_io :: "exn option"

text \<open>
  The f-string that renders the line from \<open>timestamp\<close> and \<open>temp_f\<close>: applying the format
  \<open>:.1f\<close> to \<open>None\<close> raises \<open>TypeError\<close>.
\<close>

definition format_None_error :: exn where
  "format_None_error = TypeError ''unsupported format string passed to NoneType.__format__''"

fun format_line :: "string \<Rightarrow> pyfloat option \<Rightarrow> exn + string" where
  "format_line timestamp None = Inl format_None_error"
| "format_line timestamp (Some t) =
     Inr (timestamp @ '' '' @ format_1f t @ [degree_sign] @ ''F'')"

text \<open>
  \<open>log_temperature\<close> returns the events it caused and the exception that escapes it, if
  any. The \<open>with\<close> block closes the file whether or not the write raises.
\<close>

definition log_temperature :: "string \<Rightarrow> tick_env \<Rightarrow> event list \<times> exn option" where
  "log_temperature log_file env =
     (case (case read_temperature_f (ser_io env) of
              Inl (SerialException m) \<Rightarrow> Inr ([Print (''Serial error: '' @ m)], None)
            | Inl e \<Rightarrow> Inl e
            | Inr t \<Rightarrow> Inr ([], t)) of
        Inl e \<Rightarrow> ([], Some e)
      | Inr (out1, temp_f) \<Rightarrow>
          let timestamp = strftime (now_fmt env)
          in (case format_line timestamp temp_f of
                Inl e \<Rightarrow> (out1, Some e)
              | Inr line \<Rightarrow>
                  let out2 = out1 @ [Print line]
                  in (case file_io env of
                        OpenRaises e \<Rightarrow> (out2, Some e)
                      | WriteRaises e \<Rightarrow> (out2 @ [FileOpen log_file, FileClose], Some e)
                      | WriteOk \<Rightarrow>
                          let out3 = out2 @
                                [FileOpen log_file, FileWrite (line @ [newline]), FileClose,
                                 HttpPost APPS_SCRIPT_URL line]
                          in (case post_io env of
                                None \<Rightarrow> (out3, None)
                              | Some e \<Rightarrow>
                                  if is_Exception e
                                  then (out3 @ [Print (''Google Doc post failed: '' @ exn_str e)],
                                        None)
                                  else (out3, Some e)))))"

section \<open>The main loop\<close>

text \<open>One round of the \<open>while True\<close> loop: the clock read by the scheduler, whether
  \<open>time.sleep\<close> is interrupted, and the tick that follows.\<close>

record round_env =
  now_sched :: datetime
  sleep_io :: "exn option"
  tick :: tick_env

text \<open>
  The loop never ends by itself. It is run against a finite list of rounds: the result is
  the exception that ended it, or \<open>None\<close> when it is still running after the last round
  listed. The text of the countdown message (the clock plus the wait, rendered) is not
  modelled; the event carries the wait.
\<close>

fun while_true :: "string \<Rightarrow> round_env list \<Rightarrow> event list \<times> exn option" where
  "while_true log_file [] = ([], None)"
| "while_true log_file (r # rs) =
     (let wait = seconds_to_next_quarter (now_sched r);
          out1 = [PrintNextLog wait, Sleep wait]
      in (case sleep_io r of
            Some e \<Rightarrow> (out1, Some e)
          | None \<Rightarrow>
              (case log_temperature log_file (tick r) of
                 (out2, Some e) \<Rightarrow> (out1 @ out2, Some e)
               | (out2, None) \<Rightarrow>
                   (case while_true log_file rs of
                      (out3, res) \<Rightarrow> (out1 @ out2 @ out3, res)))))"

text \<open>
  A run of the process: the platform (\<open>sys.platform\<close>), the value of \<open>LOG_FILE\<close> (the
  file \<open>temperaturealert.log\<close> beside the script), whether opening the serial port raises,
  and what the outside world does in the first tick and in the rounds that follow.
\<close>

record run_env =
  platform :: platform
  LOG_FILE :: string
  open_io :: "exn option"
  first_tick :: tick_env
  rounds :: "round_env list"

text \<open>
  How the process stands after the run: \<open>sys.exit\<close> was called, \<open>main\<close> returned, an
  exception escaped \<open>main\<close>, or the loop is still running.
\<close>

datatype outcome = SysExit int | Returned | Uncaught exn | Running

text \<open>
  The interpreter ends with the status given to \<open>sys.exit\<close>, with 0 when the script runs to
  its end, and with 1 after the traceback of an unhandled exception. An unhandled
  \<open>KeyboardInterrupt\<close> (possible only while the connection is being opened) is given no
  status: depending on the Python version the interpreter then ends by the signal.
\<close>

fun exit_status :: "outcome \<Rightarrow> int option" where
  "exit_status (SysExit n) = Some n"
| "exit_status Returned = Some 0"
| "exit_status (Uncaught KeyboardInterrupt) = None"
| "exit_status (Uncaught e) = Some 1"
| "exit_status Running = None"

text \<open>The body of the \<open>try\<close> block of \<open>main\<close>: the immediate reading, then the loop.\<close>

definition running_phase :: "string \<Rightarrow> tick_env \<Rightarrow> round_env list \<Rightarrow> event list \<times> exn option" where
  "running_phase log_file first rs =
     (case log_temperature log_file first of
        (out1, Some e) \<Rightarrow> (out1, Some e)
      | (out1, None) \<Rightarrow>
          (case while_true log_file rs of
             (out2, res) \<Rightarrow> (out1 @ out2, res)))"

definition main :: "run_env \<Rightarrow> event list \<times> outcome" where
  "main env =
     (case open_io env of
        Some (SerialException m) \<Rightarrow>
          ([Print (''Error: could not open '' @ PORT (platform env) @ '': '' @ m)] @
           (if platform env = Win
            then [Print ''Tip: check Device Manager to confirm the COM port number,'',
                  Print ''     then update PORT at the top of this script if needed.'']
            else [Print (''Tip: run with:  sg dialout -c '' @ [CHR 0x27] @ ''python3 main.py'' @
                         [CHR 0x27]),
                  Print ''     or add yourself to dialout: sudo usermod -aG dialout $USER'']),
           SysExit 1)
      | Some e \<Rightarrow> ([], Uncaught e)
      | None \<Rightarrow>
          let out0 = [Print (''Connected to '' @ PORT (platform env) @ '' at '' @
                             digits10 BAUD @ '' baud''),
                      Print (''Logging to '' @ LOG_FILE env)]
          in (case running_phase (LOG_FILE env) (first_tick env) (rounds env) of
                (out1, Some KeyboardInterrupt) \<Rightarrow>
                  (out0 @ out1 @ [Print (newline # ''Stopped.''), SerialClose], Returned)
              | (out1, Some e) \<Rightarrow> (out0 @ out1 @ [SerialClose], Uncaught e)
              | (out1, None) \<Rightarrow> (out0 @ out1, Running)))"

section \<open>Reference definitions following the specification\<close>

text \<open>The signed little-endian 16-bit integer formed by two bytes, by arithmetic.\<close>

definition spec_int16_le :: "byte \<Rightarrow> byte \<Rightarrow> int" where
  "spec_int16_le lo hi =
     (let u = uint lo + 256 * uint hi in if u < 32768 then u else u - 65536)"

text \<open>The conversion \<open>(v / 16) * 9 / 5 + 32\<close> of the specification, in exact arithmetic.\<close>

definition spec_fahrenheit :: "int \<Rightarrow> rat" where
  "spec_fahrenheit v = of_int v / 16 * 9 / 5 + 32"

text \<open>The specification's \<open>elapsed = (minutes_since_hour mod 15) * 60 + seconds +
  fractional_seconds\<close>, in exact arithmetic.\<close>

definition spec_elapsed :: "datetime \<Rightarrow> rat" where
  "spec_elapsed now =
     of_nat (minute now mod 15) * 60 + of_nat (second now) +
     of_nat (microsecond now) / 1000000"

text \<open>The specification's Log Line: timestamp, a space, the temperature with one decimal,
  the degree sign and \<open>F\<close>, terminated by a newline.\<close>

definition spec_log_line :: "datetime \<Rightarrow> pyfloat \<Rightarrow> string" where
  "spec_log_line ts t = strftime ts @ '' '' @ format_1f t @ [degree_sign] @ ''F'' @ [newline]"

section \<open>Example inputs\<close>

text \<open>A packet whose bytes 9 and 10 hold 800 (\<open>0x0320\<close>), a clock reading, a tick in
  which everything succeeds, and a run on a POSIX system.\<close>

definition example_packet :: "byte list" where
  "example_packet = replicate 9 0 @ [0x20, 0x03] @ replicate 7 0"

definition example_time :: datetime where
  "example_time =
     \<lparr>year = 2024, month = 3, day = 9, hour = 14, minute = 7, second = 30, microsecond = 0\<rparr>"

definition example_boundary :: datetime where
  "example_boundary =
     \<lparr>year = 2024, month = 3, day = 9, hour = 14, minute = 45, second = 0, microsecond = 0\<rparr>"

definition example_tick :: tick_env where
  "example_tick =
     \<lparr>ser_io = Inr example_packet, now_fmt = example_time, file_io = WriteOk, post_io = None\<rparr>"

definition example_round :: round_env where
  "example_round = \<lparr>now_sched = example_time, sleep_io = None, tick = example_tick\<rparr>"

definition example_run :: run_env where
  "example_run =
     \<lparr>platform = Posix, LOG_FILE = ''/opt/temperaturealert/temperaturealert.log'',
      open_io = None, first_tick = example_tick, rounds = [example_round]\<rparr>"

text \<open>Ticks in which the device sends nothing, the serial exchange fails, the log file
  cannot be written, or the remote endpoint cannot be reached; a round whose sleep the
  operator interrupts.\<close>

definition example_no_reply :: tick_env where
  "example_no_reply = example_tick\<lparr>ser_io := Inr []\<rparr>"

definition example_serial_fault :: tick_env where
  "example_serial_fault = example_tick\<lparr>ser_io := Inl (SerialException ''device disconnected'')\<rparr>"

definition example_disk_full :: tick_env where
  "example_disk_full = example_tick\<lparr>file_io := WriteRaises (OSError ''No space left on device'')\<rparr>"

definition example_offline :: tick_env where
  "example_offline = example_tick\<lparr>post_io := Some (RequestException ''connection refused'')\<rparr>"

definition example_interrupt :: round_env where
  "example_interrupt = example_round\<lparr>sleep_io := Some KeyboardInterrupt\<rparr>"

definition example_line :: string where
  "example_line = ''20240309:14:07 122.0'' @ [degree_sign] @ ''F''"

section \<open>Rounding to binary64\<close>

lemma round_half_even_cases:
  "round_half_even x = \<lfloor>x\<rfloor> \<or> round_half_even x = \<lfloor>x\<rfloor> + 1"
  by (simp add: round_half_even_def Let_def)

lemma round_half_even_error: "\<bar>of_int (round_half_even x) - x\<bar> \<le> 1 / 2"
proof -
  have "of_int \<lfloor>x\<rfloor> \<le> x" "x < of_int \<lfloor>x\<rfloor> + 1"
    by linarith+
  then show ?thesis
    by (auto simp: round_half_even_def Let_def abs_le_iff)
qed

lemma round_half_even_of_int [simp]: "round_half_even (of_int n) = n"
  by (simp add: round_half_even_def)

lemma round_half_even_mono:
  assumes "x \<le> y"
  shows "round_half_even x \<le> round_half_even y"
proof (cases "\<lfloor>x\<rfloor> = \<lfloor>y\<rfloor>")
  case True
  with assms show ?thesis
    by (auto simp: round_half_even_def Let_def)
next
  case False
  with assms have "\<lfloor>x\<rfloor> + 1 \<le> \<lfloor>y\<rfloor>"
    using floor_mono [OF assms] by linarith
  moreover have "round_half_even x \<le> \<lfloor>x\<rfloor> + 1"
    using round_half_even_cases [of x] by linarith
  moreover have "\<lfloor>y\<rfloor> \<le> round_half_even y"
    using round_half_even_cases [of y] by linarith
  ultimately show ?thesis by linarith
qed

lemma bitlen_pow2_bounds:
  assumes "0 < p"
  shows "(2::rat) powi (bitlen p - 1) \<le> of_int p" and "of_int p < (2::rat) powi bitlen p"
proof -
  from assms have b: "1 \<le> bitlen p"
    using bitlen_eq_zero_iff [of p] bitlen_nonneg [of p] by linarith
  from bitlen_bounds [OF assms]
  have "(2::int) ^ nat (bitlen p - 1) \<le> p" and "p < 2 ^ nat (bitlen p)"
    by simp_all
  then have "(of_int ((2::int) ^ nat (bitlen p - 1)) :: rat) \<le> of_int p"
    and "(of_int p :: rat) < of_int (2 ^ nat (bitlen p))"
    by (simp_all only: of_int_le_iff of_int_less_iff)
  then show "(2::rat) powi (bitlen p - 1) \<le> of_int p" and "of_int p < (2::rat) powi bitlen p"
    using b by (simp_all add: power_int_def)
qed

lemma binade_bounds:
  assumes "x \<noteq> 0"
  shows "2 powi binade x \<le> \<bar>x\<bar>" and "\<bar>x\<bar> < 2 powi (binade x + 1)"
proof -
  obtain p q where pq: "quotient_of \<bar>x\<bar> = (p, q)"
    by (cases "quotient_of \<bar>x\<bar>")
  then have q: "0 < q" and x: "\<bar>x\<bar> = of_int p / of_int q"
    by (auto dest: quotient_of_denom_pos quotient_of_div)
  from assms have "0 < \<bar>x\<bar>" by simp
  with q x have p: "0 < p"
    by (simp add: zero_less_divide_iff)
  define a where "a = bitlen p"
  define b where "b = bitlen q"
  have a1: "1 \<le> a" and b1: "1 \<le> b"
    using p q bitlen_eq_zero_iff [of p] bitlen_eq_zero_iff [of q] bitlen_nonneg [of p] bitlen_nonneg [of q]
    unfolding a_def b_def by linarith+
  have pl: "(2::rat) powi (a - 1) \<le> of_int p" and pu: "of_int p < (2::rat) powi a"
    using bitlen_pow2_bounds [OF p] by (simp_all add: a_def)
  have ql: "(2::rat) powi (b - 1) \<le> of_int q" and qu: "of_int q < (2::rat) powi b"
    using bitlen_pow2_bounds [OF q] by (simp_all add: b_def)
  have qpos: "(0::rat) < of_int q" using q by simp
  have "(2::rat) powi (a - b - 1) * of_int q < 2 powi (a - b - 1) * 2 powi b"
    using qu by simp
  also have "\<dots> = 2 powi (a - 1)"
    by (simp flip: power_int_add)
  also have "\<dots> \<le> of_int p" by (rule pl)
  finally have lo: "(2::rat) powi (a - b - 1) < \<bar>x\<bar>"
    using qpos by (simp add: x pos_less_divide_eq)
  have "of_int p < (2::rat) powi a" by (rule pu)
  also have "\<dots> = 2 powi (a - b + 1) * 2 powi (b - 1)"
    by (simp flip: power_int_add)
  also have "\<dots> \<le> 2 powi (a - b + 1) * of_int q"
    using ql by simp
  finally have hi: "\<bar>x\<bar> < (2::rat) powi (a - b + 1)"
    using qpos by (simp add: x pos_divide_less_eq)
  have bd: "binade x = (if 2 powi (a - b) \<le> \<bar>x\<bar> then a - b else a - b - 1)"
    by (simp add: binade_def pq a_def b_def)
  show "2 powi binade x \<le> \<bar>x\<bar>"
    using lo by (auto simp: bd)
  show "\<bar>x\<bar> < 2 powi (binade x + 1)"
    using hi by (auto simp: bd not_le)
qed


lemma binade_mono:
  assumes "0 < x" and "x \<le> y"
  shows "binade x \<le> binade y"
proof (rule ccontr)
  assume "\<not> binade x \<le> binade y"
  then have "binade y + 1 \<le> binade x" by simp
  then have "(2::rat) powi (binade y + 1) \<le> 2 powi binade x"
    by (intro power_int_increasing) simp_all
  also have "\<dots> \<le> \<bar>x\<bar>"
    using assms by (intro binade_bounds) simp
  also have "\<dots> \<le> \<bar>y\<bar>"
    using assms by simp
  also have "\<dots> < 2 powi (binade y + 1)"
    using assms by (intro binade_bounds) simp
  finally show False by simp
qed

lemma fl_scaled:
  assumes "0 < x"
  defines "u \<equiv> 2 powi (binade x - 52)"
  shows "0 < u" and "fl x = of_int (round_half_even (x / u)) * u"
    and "2 ^ 52 \<le> x / u" and "x / u < 2 ^ 53"
proof -
  show u: "0 < u" by (simp add: u_def)
  show "fl x = of_int (round_half_even (x / u)) * u"
    using assms by (simp add: fl_def Let_def)
  have k: "(2::rat) powi binade x = 2 ^ 52 * u" "(2::rat) powi (binade x + 1) = 2 ^ 53 * u"
    by (simp_all add: u_def power_int_diff power_int_add)
  have "2 powi binade x \<le> x" "x < 2 powi (binade x + 1)"
    using binade_bounds [of x] assms(1) by simp_all
  then show "2 ^ 52 \<le> x / u" and "x / u < 2 ^ 53"
    using u by (simp_all add: k pos_le_divide_eq pos_divide_less_eq)
qed

lemma fl_pos_bounds:
  assumes "0 < x"
  shows "2 powi binade x \<le> fl x" and "fl x \<le> 2 powi (binade x + 1)"
proof -
  define u :: rat where "u = 2 powi (binade x - 52)"
  note s = fl_scaled [OF assms, folded u_def]
  have k: "(2::rat) powi binade x = 2 ^ 52 * u" "(2::rat) powi (binade x + 1) = 2 ^ 53 * u"
    by (simp_all add: u_def power_int_diff power_int_add)
  have "round_half_even (of_int (2 ^ 52)) \<le> round_half_even (x / u)"
    using s(3) by (intro round_half_even_mono) simp
  then have lo: "(2::int) ^ 52 \<le> round_half_even (x / u)"
    by (simp only: round_half_even_of_int)
  have "round_half_even (x / u) \<le> round_half_even (of_int (2 ^ 53))"
    using s(4) by (intro round_half_even_mono) simp
  then have hi: "round_half_even (x / u) \<le> (2::int) ^ 53"
    by (simp only: round_half_even_of_int)
  from lo have "(of_int ((2::int) ^ 52) :: rat) \<le> of_int (round_half_even (x / u))"
    by (simp only: of_int_le_iff)
  then show "2 powi binade x \<le> fl x"
    using s(1) by (simp add: k s(2))
  from hi have "(of_int (round_half_even (x / u)) :: rat) \<le> of_int ((2::int) ^ 53)"
    by (simp only: of_int_le_iff)
  then show "fl x \<le> 2 powi (binade x + 1)"
    using s(1) by (simp add: k s(2))
qed

lemma fl_zero [simp]: "fl 0 = 0"
  by (simp add: fl_def)

lemma fl_pos: "0 < x \<Longrightarrow> 0 < fl x"
  using fl_pos_bounds(1) [of x] zero_less_power_int [of "2::rat" "binade x"] by linarith

lemma fl_mono_pos:
  assumes "0 < x" and "x \<le> y"
  shows "fl x \<le> fl y"
proof -
  from assms have y: "0 < y" by simp
  have le: "binade x \<le> binade y" using assms by (rule binade_mono)
  show ?thesis
  proof (cases "binade x = binade y")
    case True
    define u :: rat where "u = 2 powi (binade x - 52)"
    have u: "0 < u" by (simp add: u_def)
    have fx: "fl x = of_int (round_half_even (x / u)) * u"
      using fl_scaled(2) [OF assms(1)] by (simp add: u_def)
    have fy: "fl y = of_int (round_half_even (y / u)) * u"
      using fl_scaled(2) [OF y] by (simp add: u_def True)
    have "x / u \<le> y / u" using assms(2) u by (simp add: divide_right_mono)
    then have "round_half_even (x / u) \<le> round_half_even (y / u)"
      by (rule round_half_even_mono)
    then have "(of_int (round_half_even (x / u)) :: rat) \<le> of_int (round_half_even (y / u))"
      by (simp only: of_int_le_iff)
    then show ?thesis using u by (simp add: fx fy)
  next
    case False
    with le have "binade x + 1 \<le> binade y" by simp
    then have "(2::rat) powi (binade x + 1) \<le> 2 powi binade y"
      by (intro power_int_increasing) simp_all
    with fl_pos_bounds(2) [OF assms(1)] fl_pos_bounds(1) [OF y] show ?thesis
      by linarith
  qed
qed

lemma fl_mono_nonneg:
  assumes "0 \<le> x" and "x \<le> y"
  shows "fl x \<le> fl y"
proof (cases "x = 0")
  case True
  show ?thesis
  proof (cases "y = 0")
    case True
    with \<open>x = 0\<close> show ?thesis by simp
  next
    case False
    with assms True have "0 < y" by simp
    from fl_pos [OF this] True show ?thesis by simp
  qed
next
  case False
  with assms have "0 < x" by simp
  then show ?thesis using assms(2) by (rule fl_mono_pos)
qed

lemma fl_error: "\<bar>fl x - x\<bar> \<le> \<bar>x\<bar> / 2 ^ 53"
proof (cases "x = 0")
  case True
  then show ?thesis by simp
next
  case False
  define u :: rat where "u = 2 powi (binade x - 52)"
  have u: "0 < u" by (simp add: u_def)
  have fx: "fl x = of_int (round_half_even (x / u)) * u"
    using False by (simp add: fl_def Let_def u_def)
  have "fl x - x = (of_int (round_half_even (x / u)) - x / u) * u"
    using u by (simp add: fx algebra_simps)
  then have "\<bar>fl x - x\<bar> = \<bar>of_int (round_half_even (x / u)) - x / u\<bar> * u"
    using u by (simp add: abs_mult)
  also have "\<dots> \<le> 1 / 2 * u"
    using u round_half_even_error [of "x / u"] by (intro mult_right_mono) simp_all
  also have "\<dots> = 2 powi binade x / 2 ^ 53"
    by (simp add: u_def power_int_diff)
  also have "\<dots> \<le> \<bar>x\<bar> / 2 ^ 53"
    using binade_bounds(1) [OF False] by (simp add: divide_right_mono)
  finally show ?thesis .
qed

lemma fl_of_int:
  assumes "\<bar>n\<bar> < 2 ^ 53"
  shows "fl (of_int n) = of_int n"
proof (cases "n = 0")
  case True
  then show ?thesis by simp
next
  case False
  define x :: rat where "x = of_int n"
  have x0: "x \<noteq> 0" using False by (simp add: x_def)
  have "\<bar>x\<bar> < 2 ^ 53"
  proof -
    have "(of_int \<bar>n\<bar> :: rat) < of_int (2 ^ 53)"
      using assms by (simp only: of_int_less_iff)
    then show ?thesis by (simp add: x_def)
  qed
  with binade_bounds(1) [OF x0] have lt: "(2::rat) powi binade x < 2 ^ 53"
    by simp
  have "binade x < 53"
  proof (rule ccontr)
    assume "\<not> binade x < 53"
    then have "(2::rat) powi 53 \<le> 2 powi binade x"
      by (intro power_int_increasing) simp_all
    with lt show False by simp
  qed
  then have "0 \<le> 52 - binade x" by simp
  then obtain j where "52 - binade x = int j"
    using nonneg_int_cases by blast
  then have j: "binade x - 52 = - int j" by simp
  define u :: rat where "u = 2 powi (binade x - 52)"
  have u: "u = 1 / 2 ^ j"
    by (simp add: u_def j power_int_minus field_simps)
  have "x / u = of_int (n * 2 ^ j)"
    by (simp add: u x_def)
  then have "round_half_even (x / u) = n * 2 ^ j"
    by (simp only: round_half_even_of_int)
  then have "fl x = of_int (n * 2 ^ j) * u"
    using x0 by (simp add: fl_def Let_def u_def)
  then show ?thesis
    by (simp add: u x_def)
qed

section \<open>Two bytes as a signed 16-bit integer\<close>

lemma byte_or_disjoint:
  "uint (lo::byte) OR push_bit 8 (uint (hi::byte)) = uint lo + 256 * uint hi"
proof -
  have "uint lo AND push_bit 8 (uint hi) = 0"
    by (auto simp: bit_eq_iff bit_simps dest: bit_imp_le_length)
  then have "uint lo + push_bit 8 (uint hi) = uint lo OR push_bit 8 (uint hi)"
    by (rule disjunctive_add_eq_or)
  then show ?thesis
    by (simp add: push_bit_eq_mult)
qed

lemma le16_uint:
  "uint ((ucast (lo::byte) :: 16 word) OR push_bit 8 (ucast (hi::byte) :: 16 word)) = uint lo + 256 * uint hi"
proof -
  have lo: "uint lo < 256" and hi: "uint hi < 256"
    using uint_bounded [of lo] uint_bounded [of hi] by simp_all
  have "take_bit 16 (uint lo) = uint lo" and h: "take_bit 16 (uint hi) = uint hi"
    using lo hi by (simp_all add: take_bit_int_eq_self)
  then have a: "uint (ucast lo :: 16 word) = uint lo"
    and c: "uint (ucast hi :: 16 word) = uint hi"
    by (simp_all add: unsigned_ucast_eq)
  have "take_bit 16 (push_bit 8 (uint hi)) = push_bit 8 (uint hi)"
    using hi by (intro take_bit_int_eq_self) (simp_all add: push_bit_eq_mult)
  then have b: "uint (push_bit 8 (ucast hi :: 16 word)) = push_bit 8 (uint hi)"
    by (simp add: unsigned_push_bit_eq c)
  show ?thesis
    by (simp only: uint_or a b byte_or_disjoint)
qed

lemma sint16: "sint (w :: 16 word) = (if uint w < 32768 then uint w else uint w - 65536)"
proof -
  have b: "0 \<le> uint w" "uint w < 65536"
    using uint_bounded [of w] by simp_all
  show ?thesis
  proof (cases "uint w < 32768")
    case True
    moreover have "- 32768 \<le> uint w"
      by (rule order_trans [of _ 0]) simp_all
    ultimately have "signed_take_bit 15 (uint w) = uint w"
      by (intro signed_take_bit_int_eq_self) simp_all
    with True show ?thesis
      by (simp add: sint_uint)
  next
    case False
    with b have "(uint w + 32768) mod 65536 = uint w - 32768"
      by (simp add: mod_pos_geq)
    with False show ?thesis
      by (simp add: sint_uint signed_take_bit_eq_take_bit_shift take_bit_eq_mod)
  qed
qed

section \<open>The scheduler's result\<close>

lemma fl_900 [simp]: "fl 900 = 900"
  using fl_of_int [of 900] by simp

lemma fl_representable_bounds:
  "fl (1 - 1 / 2 ^ 20) = 1 - 1 / 2 ^ 20"
  "fl (900 - 1 / 2 ^ 20) = 900 - 1 / 2 ^ 20"
  "fl (1 / 2 ^ 20) = 1 / 2 ^ 20"
  by code_simp+

lemma scheduler_parts:
  assumes "valid_datetime now"
  defines "a \<equiv> int (minute now mod 15) * 60 + int (second now)"
  defines "t \<equiv> fl (of_nat (microsecond now) / 1000000)"
  defines "e \<equiv> fl (of_int a + t)"
  shows "seconds_to_next_quarter now = fl (900 - e)"
    and "0 \<le> a" and "a \<le> 899"
    and "0 \<le> t" and "t \<le> 1 - 1 / 2 ^ 20"
    and "0 \<le> e" and "e \<le> 900 - 1 / 2 ^ 20"
proof -
  have m: "minute now mod 15 \<le> 14" by simp
  have s: "second now \<le> 59" and us: "microsecond now \<le> 999999"
    using assms(1) by (simp_all add: valid_datetime_def)
  show a0: "0 \<le> a" and a1: "a \<le> 899"
    using m s by (simp_all add: a_def)
  have fa: "fl (of_int a) = of_int a"
    using a0 a1 by (intro fl_of_int) simp
  have fu: "fl (of_int (int (microsecond now))) = of_int (int (microsecond now))"
    using us by (intro fl_of_int) simp
  show "seconds_to_next_quarter now = fl (900 - e)"
    unfolding seconds_to_next_quarter_def float_sub_def float_add_def float_truediv_def
      float_of_int_def Let_def a_def [symmetric] fa fu
    by (simp add: e_def t_def)
  have q0: "(0::rat) \<le> of_nat (microsecond now) / 1000000" by simp
  have "(of_nat (microsecond now) :: rat) \<le> of_nat 999999"
    using us by (simp only: of_nat_le_iff)
  then have q1: "(of_nat (microsecond now) :: rat) / 1000000 \<le> 1 - 1 / 2 ^ 20"
    by simp
  from fl_mono_nonneg [of 0, OF _ q0] show t0: "0 \<le> t"
    by (simp add: t_def)
  from fl_mono_nonneg [OF q0 q1] show t1: "t \<le> 1 - 1 / 2 ^ 20"
    by (simp only: t_def fl_representable_bounds)
  have ra0: "(0::rat) \<le> of_int a" and ra1: "(of_int a :: rat) \<le> 899"
    using a0 a1 by simp_all
  have x0: "0 \<le> of_int a + t" using ra0 t0 by simp
  have x1: "of_int a + t \<le> 900 - 1 / 2 ^ 20" using ra1 t1 by simp
  from fl_mono_nonneg [of 0, OF _ x0] show "0 \<le> e"
    by (simp add: e_def)
  from fl_mono_nonneg [OF x0 x1] show "e \<le> 900 - 1 / 2 ^ 20"
    by (simp only: e_def fl_representable_bounds)
qed

lemma seconds_to_next_quarter_range:
  assumes "valid_datetime now"
  shows "0 < seconds_to_next_quarter now" and "seconds_to_next_quarter now \<le> 900"
proof -
  define e where "e = fl (of_int (int (minute now mod 15) * 60 + int (second now)) +
    fl (of_nat (microsecond now) / 1000000))"
  note p = scheduler_parts [OF assms, folded e_def]
  have lo: "1 / 2 ^ 20 \<le> 900 - e" using p(7) by simp
  have hi: "900 - e \<le> 900" using p(6) by simp
  have "fl (1 / 2 ^ 20) \<le> fl (900 - e)"
    using lo by (intro fl_mono_nonneg) simp_all
  then have "1 / 2 ^ 20 \<le> fl (900 - e)"
    by (simp only: fl_representable_bounds)
  moreover have "(0::rat) < 1 / 2 ^ 20" by simp
  ultimately show "0 < seconds_to_next_quarter now"
    unfolding p(1) by (rule less_le_trans [rotated])
  have "fl (900 - e) \<le> fl 900"
    using hi lo by (intro fl_mono_nonneg) simp_all
  then show "seconds_to_next_quarter now \<le> 900"
    by (simp add: p(1))
qed


lemma fl_error_le:
  assumes "\<bar>x\<bar> \<le> b"
  shows "\<bar>fl x - x\<bar> \<le> b / 2 ^ 53"
proof -
  have "\<bar>fl x - x\<bar> \<le> \<bar>x\<bar> / 2 ^ 53" by (rule fl_error)
  also have "\<dots> \<le> b / 2 ^ 53" using assms by (simp add: divide_right_mono)
  finally show ?thesis .
qed

lemma seconds_to_next_quarter_error:
  assumes "valid_datetime now"
  shows "\<bar>seconds_to_next_quarter now - (900 - spec_elapsed now)\<bar> \<le> 1 / 2 ^ 42"
proof -
  define a where "a = int (minute now mod 15) * 60 + int (second now)"
  define q :: rat where "q = of_nat (microsecond now) / 1000000"
  define t where "t = fl q"
  define e where "e = fl (of_int a + t)"
  note p = scheduler_parts [OF assms, folded a_def, folded q_def, folded t_def, folded e_def]
  have sp: "spec_elapsed now = of_int a + q"
    by (simp add: spec_elapsed_def a_def q_def)
  have q0: "0 \<le> q" by (simp add: q_def)
  have "(of_nat (microsecond now) :: rat) \<le> of_nat 1000000"
    using assms by (simp only: of_nat_le_iff) (simp add: valid_datetime_def)
  then have q1: "q \<le> 1" by (simp add: q_def)
  have ra: "(0::rat) \<le> of_int a" "(of_int a :: rat) \<le> 899"
    using p(2,3) by simp_all
  have e1: "\<bar>t - q\<bar> \<le> 1 / 2 ^ 53"
    unfolding t_def using q0 q1 by (intro fl_error_le) simp
  have e2: "\<bar>e - (of_int a + t)\<bar> \<le> 900 / 2 ^ 53"
    unfolding e_def using ra p(4,5) by (intro fl_error_le) simp
  have e3: "\<bar>fl (900 - e) - (900 - e)\<bar> \<le> 900 / 2 ^ 53"
    using p(6,7) by (intro fl_error_le) simp
  have "\<bar>fl (900 - e) - (900 - (of_int a + q))\<bar> \<le> 1801 / 2 ^ 53"
    using e1 e2 e3 by linarith
  also have "\<dots> \<le> 1 / 2 ^ 42" by simp
  finally show ?thesis by (simp add: p(1) sp)
qed

lemma seconds_to_next_quarter_whole:
  assumes "microsecond now = 0" and "second now < 60"
  shows "seconds_to_next_quarter now = 900 - spec_elapsed now"
proof -
  define a where "a = int (minute now mod 15) * 60 + int (second now)"
  have a: "0 \<le> a" "a \<le> 899"
    using assms(2) by (simp_all add: a_def)
  have fa: "fl (of_int a) = of_int a"
    using a by (intro fl_of_int) simp
  have "fl (900 - of_int a) = fl (of_int (900 - a))" by simp
  also have "\<dots> = of_int (900 - a)"
    using a by (intro fl_of_int) simp
  finally have fb: "fl (900 - of_int a) = 900 - of_int a" by simp
  have "seconds_to_next_quarter now = fl (900 - fl (of_int a))"
    unfolding seconds_to_next_quarter_def float_sub_def float_add_def float_truediv_def
      float_of_int_def Let_def a_def [symmetric] fa
    by (simp add: assms(1) fa)
  then have "seconds_to_next_quarter now = 900 - of_int a"
    by (simp only: fa fb)
  moreover have "spec_elapsed now = of_int a"
    by (simp add: spec_elapsed_def a_def assms(1))
  ultimately show ?thesis by simp
qed

lemma log_temperature_no_sleep: "Sleep w \<notin> set (fst (log_temperature lf env))"
  by (auto simp: log_temperature_def Let_def
      split: sum.splits option.splits exn.splits file_outcome.splits prod.splits)

lemma while_true_head:
  "\<exists>rest. fst (while_true lf (r # rs)) =
     PrintNextLog (seconds_to_next_quarter (now_sched r)) #
     Sleep (seconds_to_next_quarter (now_sched r)) # rest"
  by (simp add: Let_def split: option.splits prod.splits)

lemma while_true_sleeps:
  assumes "\<forall>r\<in>set rs. valid_datetime (now_sched r)"
    and "Sleep w \<in> set (fst (while_true lf rs))"
  shows "0 < w \<and> w \<le> 900"
  using assms
proof (induction rs)
  case Nil
  then show ?case by simp
next
  case (Cons r rs)
  from Cons.prems(1) have v: "valid_datetime (now_sched r)" by simp
  note rng = seconds_to_next_quarter_range [OF v]
  from Cons.prems(2) consider
      "w = seconds_to_next_quarter (now_sched r)"
    | "Sleep w \<in> set (fst (log_temperature lf (tick r)))"
    | "Sleep w \<in> set (fst (while_true lf rs))"
    by (auto simp: Let_def split: option.splits prod.splits)
  then show ?case
  proof cases
    case 1
    with rng show ?thesis by simp
  next
    case 2
    with log_temperature_no_sleep show ?thesis by blast
  next
    case 3
    with Cons show ?thesis by simp
  qed
qed

text \<open>
  C5: for a clock reading \<open>now\<close>, the scheduler returns 900 minus \<open>elapsed\<close>, where
  \<open>elapsed\<close> is \<open>(minute mod 15) * 60 + second + microsecond / 1e6\<close>, each operation being
  a binary64 operation. The result is within \<open>2 ^ -42\<close> of the exact value
  \<open>900 - spec_elapsed now\<close>, and at minute 7, second 30, microsecond 0 it is 450.
\<close>

theorem seconds_to_next_quarter_formula:
  assumes "valid_datetime now"
  shows "seconds_to_next_quarter now =
           float_sub 900
             (float_add (of_nat (minute now mod 15 * 60 + second now))
                (float_truediv (of_nat (microsecond now)) 1000000)) \<and>
         \<bar>seconds_to_next_quarter now - (900 - spec_elapsed now)\<bar> \<le> 1 / 2 ^ 42 \<and>
         (minute now = 7 \<and> second now = 30 \<and> microsecond now = 0 \<longrightarrow>
            seconds_to_next_quarter now = 450)"
proof (intro conjI impI)
  have "seconds_to_next_quarter now =
      fl (900 - fl (of_int (int (minute now mod 15) * 60 + int (second now)) +
        fl (of_nat (microsecond now) / 1000000)))"
    by (rule scheduler_parts(1) [OF assms])
  then show "seconds_to_next_quarter now =
           float_sub 900
             (float_add (of_nat (minute now mod 15 * 60 + second now))
                (float_truediv (of_nat (microsecond now)) 1000000))"
    by (simp add: float_sub_def float_add_def float_truediv_def)
  show "\<bar>seconds_to_next_quarter now - (900 - spec_elapsed now)\<bar> \<le> 1 / 2 ^ 42"
    by (rule seconds_to_next_quarter_error [OF assms])
next
  assume "minute now = 7 \<and> second now = 30 \<and> microsecond now = 0"
  then show "seconds_to_next_quarter now = 450"
    by (simp add: seconds_to_next_quarter_whole spec_elapsed_def)
qed

theorem seconds_to_next_quarter_formula_witness:
  "valid_datetime example_time \<and> minute example_time = 7 \<and> second example_time = 30 \<and>
   microsecond example_time = 0 \<and> seconds_to_next_quarter example_time = 450 \<and>
   \<bar>seconds_to_next_quarter example_time - (900 - spec_elapsed example_time)\<bar> \<le> 1 / 2 ^ 42"
proof -
  have v: "valid_datetime example_time"
    by (simp add: valid_datetime_def example_time_def)
  have f: "minute example_time = 7 \<and> second example_time = 30 \<and> microsecond example_time = 0"
    by (simp add: example_time_def)
  from seconds_to_next_quarter_formula [OF v] v f show ?thesis by blast
qed

text \<open>
  C6: when the clock reads a quarter-hour boundary exactly (minute a multiple of 15, second
  and microsecond 0), the scheduler returns 900, a full interval, and the loop sleeps for
  900 seconds before the next tick.
\<close>

theorem quarter_boundary_full_interval:
  assumes "minute now mod 15 = 0" and "second now = 0" and "microsecond now = 0"
  shows "seconds_to_next_quarter now = 900 \<and>
         (now_sched r = now \<longrightarrow>
            take 2 (fst (while_true lf (r # rs))) = [PrintNextLog 900, Sleep 900])"
proof -
  have w: "seconds_to_next_quarter now = 900"
    using assms by (simp add: seconds_to_next_quarter_whole spec_elapsed_def)
  moreover have "take 2 (fst (while_true lf (r # rs))) = [PrintNextLog 900, Sleep 900]"
    if "now_sched r = now"
    using while_true_head [of lf r rs] w that by auto
  ultimately show ?thesis by blast
qed

theorem quarter_boundary_full_interval_witness:
  "minute example_boundary mod 15 = 0 \<and> second example_boundary = 0 \<and>
   microsecond example_boundary = 0 \<and>
   now_sched (example_round\<lparr>now_sched := example_boundary\<rparr>) = example_boundary \<and>
   seconds_to_next_quarter example_boundary = 900 \<and>
   take 2 (fst (while_true [] [example_round\<lparr>now_sched := example_boundary\<rparr>])) =
     [PrintNextLog 900, Sleep 900]"
proof -
  have h: "minute example_boundary mod 15 = 0" "second example_boundary = 0"
    "microsecond example_boundary = 0"
    by (simp_all add: example_boundary_def)
  have n: "now_sched (example_round\<lparr>now_sched := example_boundary\<rparr>) = example_boundary"
    by simp
  from quarter_boundary_full_interval [OF h, of "example_round\<lparr>now_sched := example_boundary\<rparr>" "[]" "[]"]
    h n show ?thesis by blast
qed

text \<open>
  C10: for every clock reading the scheduler's result lies in \<open>(0, 900]\<close>, so every
  duration the loop passes to its sleep is positive and at most 900.
\<close>

theorem scheduler_wait_in_range:
  "(valid_datetime now \<longrightarrow>
      0 < seconds_to_next_quarter now \<and> seconds_to_next_quarter now \<le> 900) \<and>
   ((\<forall>r\<in>set rs. valid_datetime (now_sched r)) \<longrightarrow>
      Sleep w \<in> set (fst (while_true lf rs)) \<longrightarrow> 0 < w \<and> w \<le> 900)"
  using seconds_to_next_quarter_range [of now] while_true_sleeps [of rs w lf] by blast

theorem scheduler_wait_in_range_witness:
  "valid_datetime example_time \<and> valid_datetime (now_sched example_round) \<and>
   Sleep (seconds_to_next_quarter example_time) \<in> set (fst (while_true [] [example_round])) \<and>
   0 < seconds_to_next_quarter example_time \<and> seconds_to_next_quarter example_time \<le> 900"
proof -
  have v: "valid_datetime example_time"
    by (simp add: valid_datetime_def example_time_def)
  have a: "\<forall>r\<in>set [example_round]. valid_datetime (now_sched r)"
    using v by (simp add: example_round_def)
  have s: "Sleep (seconds_to_next_quarter example_time) \<in> set (fst (while_true [] [example_round]))"
    using while_true_head [of "[]" example_round "[]"] by (auto simp: example_round_def)
  have b: "valid_datetime (now_sched example_round)"
    using v by (simp add: example_round_def)
  from scheduler_wait_in_range [of example_time "[example_round]"
      "seconds_to_next_quarter example_time" "[]"] v a b s
  show ?thesis by blast
qed

section \<open>The decoder's result\<close>

lemma spec_int16_le_range: "- 32768 \<le> spec_int16_le lo hi" "spec_int16_le lo hi \<le> 32767"
proof -
  define u where "u = uint lo + 256 * uint hi"
  have "uint lo < 256" "uint hi < 256"
    using uint_bounded [of lo] uint_bounded [of hi] by simp_all
  moreover have "0 \<le> uint lo" "0 \<le> uint hi" by simp_all
  ultimately have u: "0 \<le> u" "u < 65536"
    unfolding u_def by linarith+
  have s: "spec_int16_le lo hi = (if u < 32768 then u else u - 65536)"
    by (simp add: spec_int16_le_def Let_def u_def)
  show "- 32768 \<le> spec_int16_le lo hi" "spec_int16_le lo hi \<le> 32767"
    using u unfolding s by (cases "u < 32768"; simp)+
qed

lemma unpack_from_h_spec:
  assumes "off + 2 \<le> length data"
  shows "unpack_from_h data off = Inr (spec_int16_le (data ! off) (data ! (off + 1)))"
  using assms by (simp add: unpack_from_h_def sint16 le16_uint spec_int16_le_def Let_def)

text \<open>The float computed from the raw value \<open>v\<close>, with the conversions of the integer
  operands written out as the exact values they are.\<close>

lemma read_temperature_f_value:
  assumes "PACKET_LEN \<le> length buf"
  defines "v \<equiv> spec_int16_le (buf ! TEMP1_OFFSET) (buf ! (TEMP1_OFFSET + 1))"
  shows "read_temperature_f (Inr buf) =
           Inr (Some (fl (fl (fl (fl (of_int v / 16) * 9) / 5) + 32)))"
proof -
  from assms(1) have len: "18 \<le> length buf" by (simp add: PACKET_LEN_def)
  then have l: "\<not> min (length buf) 64 < PACKET_LEN"
    by (simp add: PACKET_LEN_def)
  have "unpack_from_h (take 64 buf) TEMP1_OFFSET =
      Inr (spec_int16_le (take 64 buf ! TEMP1_OFFSET) (take 64 buf ! (TEMP1_OFFSET + 1)))"
    using len by (intro unpack_from_h_spec) (simp add: TEMP1_OFFSET_def)
  then have u: "unpack_from_h (take 64 buf) TEMP1_OFFSET = Inr v"
    by (simp add: v_def TEMP1_OFFSET_def)
  have "\<bar>v\<bar> < 2 ^ 53"
    using spec_int16_le_range [of "buf ! TEMP1_OFFSET" "buf ! (TEMP1_OFFSET + 1)"]
    by (simp add: v_def)
  then have fv: "float_of_int v = of_int v"
    unfolding float_of_int_def by (rule fl_of_int)
  have c: "float_of_int 9 = 9" "float_of_int 5 = 5" "float_of_int 32 = 32"
    using fl_of_int [of 9] fl_of_int [of 5] fl_of_int [of 32] by (simp_all add: float_of_int_def)
  show ?thesis
    unfolding read_temperature_f_def
    by (simp add: l u fv c Let_def float_add_def float_truediv_def float_mul_def del: take_eq_Nil)
qed

lemma fahrenheit_error:
  assumes "- 32768 \<le> v" and "v \<le> 32767"
  shows "\<bar>fl (fl (fl (fl (of_int v / 16) * 9) / 5) + 32) - spec_fahrenheit v\<bar> \<le> 1 / 2 ^ 39"
proof -
  define x :: rat where "x = of_int v / 16"
  define r2 where "r2 = fl x"
  define r3 where "r3 = fl (r2 * 9)"
  define r4 where "r4 = fl (r3 / 5)"
  define r5 where "r5 = fl (r4 + 32)"
  define E :: rat where "E = 1 / 2 ^ 53"
  have E: "0 \<le> E" "E \<le> 1 / 2048000" by (simp_all add: E_def)
  have err: "\<bar>fl y - y\<bar> \<le> b * E" if "\<bar>y\<bar> \<le> b" for y b
    using fl_error_le [OF that] by (simp add: E_def)
  have "(of_int (- 32768) :: rat) \<le> of_int v" "(of_int v :: rat) \<le> of_int 32767"
    using assms by (simp_all only: of_int_le_iff)
  then have x: "\<bar>x\<bar> \<le> 2048" by (simp add: x_def abs_le_iff)
  have e2: "\<bar>r2 - x\<bar> \<le> 2048 * E"
    unfolding r2_def using x by (rule err)
  then have b2: "\<bar>r2 * 9\<bar> \<le> 18441" using x E by linarith
  have e3: "\<bar>r3 - r2 * 9\<bar> \<le> 18441 * E"
    unfolding r3_def using b2 by (rule err)
  then have b3: "\<bar>r3 / 5\<bar> \<le> 3689" using b2 E by linarith
  have e4: "\<bar>r4 - r3 / 5\<bar> \<le> 3689 * E"
    unfolding r4_def using b3 by (rule err)
  then have b4: "\<bar>r4 + 32\<bar> \<le> 3722" using b3 E by linarith
  have e5: "\<bar>r5 - (r4 + 32)\<bar> \<le> 3722 * E"
    unfolding r5_def using b4 by (rule err)
  have "\<bar>r5 - (x * 9 / 5 + 32)\<bar> \<le> 16384 * E"
    using e2 e3 e4 e5 E by linarith
  also have "\<dots> = 1 / 2 ^ 39" by (simp add: E_def)
  finally show ?thesis
    by (simp add: r5_def r4_def r3_def r2_def x_def spec_fahrenheit_def)
qed

lemma fahrenheit_800: "fl (fl (fl (fl (of_int 800 / 16) * 9) / 5) + 32) = 122"
proof -
  have "fl (of_int 800 / 16) = 50" using fl_of_int [of 50] by simp
  moreover have "fl (50 * 9) = 450" using fl_of_int [of 450] by simp
  moreover have "fl (450 / 5) = 90" using fl_of_int [of 90] by simp
  moreover have "fl (90 + 32) = 122" using fl_of_int [of 122] by simp
  ultimately show ?thesis by simp
qed

text \<open>
  C3: for a buffer of at least 18 bytes the decoder takes the signed little-endian 16-bit
  integer \<open>v\<close> at offset 9 and returns \<open>(v / 16.0) * 9 / 5 + 32\<close>, computed in binary64
  arithmetic; the result is within \<open>2 ^ -39\<close> of the exact value, and for \<open>v = 800\<close> it is
  122.
\<close>

theorem read_temperature_f_decodes:
  assumes "PACKET_LEN \<le> length buf"
  defines "v \<equiv> spec_int16_le (buf ! 9) (buf ! 10)"
  shows "\<exists>t. read_temperature_f (Inr buf) = Inr (Some t) \<and>
           t = float_add (float_truediv (float_mul (float_truediv (of_int v) 16) 9) 5) 32 \<and>
           \<bar>t - spec_fahrenheit v\<bar> \<le> 1 / 2 ^ 39 \<and>
           (v = 800 \<longrightarrow> t = 122)"
proof -
  define t where "t = fl (fl (fl (fl (of_int v / 16) * 9) / 5) + 32)"
  have r: "read_temperature_f (Inr buf) = Inr (Some t)"
    using read_temperature_f_value [OF assms(1)] by (simp add: t_def v_def TEMP1_OFFSET_def)
  have f: "t = float_add (float_truediv (float_mul (float_truediv (of_int v) 16) 9) 5) 32"
    by (simp add: t_def float_add_def float_truediv_def float_mul_def)
  have e: "\<bar>t - spec_fahrenheit v\<bar> \<le> 1 / 2 ^ 39"
    unfolding t_def v_def by (intro fahrenheit_error spec_int16_le_range)
  have "t = 122" if "v = 800"
    using fahrenheit_800 that by (simp add: t_def)
  with r f e show ?thesis by blast
qed

lemma example_packet_bytes:
  "length example_packet = 18" "example_packet ! 9 = 0x20" "example_packet ! 10 = 0x03"
  by (simp_all add: example_packet_def nth_append)

lemma example_packet_raw: "spec_int16_le (example_packet ! 9) (example_packet ! 10) = 800"
  by (simp add: example_packet_bytes spec_int16_le_def)

theorem read_temperature_f_decodes_witness:
  "PACKET_LEN \<le> length example_packet \<and>
   spec_int16_le (example_packet ! 9) (example_packet ! 10) = 800 \<and>
   read_temperature_f (Inr example_packet) = Inr (Some 122)"
proof -
  have l: "PACKET_LEN \<le> length example_packet"
    by (simp add: example_packet_bytes PACKET_LEN_def)
  from read_temperature_f_decodes [OF l] example_packet_raw l show ?thesis
    by auto
qed

text \<open>
  C4: a buffer shorter than 18 bytes decodes to \<open>None\<close>, a buffer of 18 bytes or more always
  decodes to a temperature (nothing else is checked), and decoding never raises.
\<close>

theorem short_packet_is_absent:
  "(length buf < PACKET_LEN \<longrightarrow> read_temperature_f (Inr buf) = Inr None) \<and>
   (PACKET_LEN \<le> length buf \<longrightarrow> (\<exists>t. read_temperature_f (Inr buf) = Inr (Some t))) \<and>
   (\<forall>e. read_temperature_f (Inr buf) \<noteq> Inl e)"
proof -
  have a: "read_temperature_f (Inr buf) = Inr None" if "length buf < PACKET_LEN"
    using that by (simp add: read_temperature_f_def PACKET_LEN_def)
  have b: "\<exists>t. read_temperature_f (Inr buf) = Inr (Some t)" if "PACKET_LEN \<le> length buf"
    using read_temperature_f_value [OF that] by blast
  from a b have "\<forall>e. read_temperature_f (Inr buf) \<noteq> Inl e"
    by (cases "length buf < PACKET_LEN") auto
  with a b show ?thesis by blast
qed

theorem short_packet_is_absent_witness:
  "length ([] :: byte list) < PACKET_LEN \<and> read_temperature_f (Inr []) = Inr None \<and>
   PACKET_LEN \<le> length example_packet \<and>
   read_temperature_f (Inr example_packet) \<noteq> Inr None"
proof -
  have s: "length ([] :: byte list) < PACKET_LEN"
    by (simp add: PACKET_LEN_def)
  have l: "PACKET_LEN \<le> length example_packet"
    by (simp add: example_packet_bytes PACKET_LEN_def)
  from short_packet_is_absent [of "[]"] short_packet_is_absent [of example_packet] s l
  show ?thesis by auto
qed

section \<open>One tick\<close>

lemma log_temperature_absent:
  assumes "read_temperature_f (ser_io env) = Inr None"
  shows "log_temperature lf env = ([], Some format_None_error)"
  using assms by (simp add: log_temperature_def)

lemma log_temperature_serial_fault:
  assumes "ser_io env = Inl (SerialException m)"
  shows "log_temperature lf env = ([Print (''Serial error: '' @ m)], Some format_None_error)"
  using assms by (simp add: log_temperature_def read_temperature_f_def)

lemma log_temperature_present:
  assumes "read_temperature_f (ser_io env) = Inr (Some t)"
  defines "line \<equiv> strftime (now_fmt env) @ '' '' @ format_1f t @ [degree_sign] @ ''F''"
  shows "log_temperature lf env =
     (case file_io env of
        OpenRaises e \<Rightarrow> ([Print line], Some e)
      | WriteRaises e \<Rightarrow> ([Print line, FileOpen lf, FileClose], Some e)
      | WriteOk \<Rightarrow>
          (case post_io env of
             None \<Rightarrow>
               ([Print line, FileOpen lf, FileWrite (line @ [newline]), FileClose,
                 HttpPost APPS_SCRIPT_URL line], None)
           | Some e \<Rightarrow>
               if is_Exception e
               then ([Print line, FileOpen lf, FileWrite (line @ [newline]), FileClose,
                      HttpPost APPS_SCRIPT_URL line,
                      Print (''Google Doc post failed: '' @ exn_str e)], None)
               else ([Print line, FileOpen lf, FileWrite (line @ [newline]), FileClose,
                      HttpPost APPS_SCRIPT_URL line], Some e)))"
  using assms(1)
  by (simp add: log_temperature_def Let_def line_def split: file_outcome.splits option.splits)

lemma log_temperature_post_only_present:
  assumes "HttpPost url body \<in> set (fst (log_temperature lf env))"
  shows "\<exists>t. read_temperature_f (ser_io env) = Inr (Some t)"
proof (cases "read_temperature_f (ser_io env)")
  case (Inl e)
  with assms show ?thesis
    by (cases e) (simp_all add: log_temperature_def format_None_error_def)
next
  case (Inr r)
  with assms show ?thesis
    by (cases r) (simp_all add: log_temperature_def)
qed

section \<open>Example evaluations\<close>

lemma read_example: "read_temperature_f (Inr example_packet) = Inr (Some 122)"
proof -
  have "PACKET_LEN \<le> length example_packet"
    by (simp add: example_packet_bytes PACKET_LEN_def)
  from read_temperature_f_value [OF this] show ?thesis
    using fahrenheit_800 example_packet_raw by (simp add: TEMP1_OFFSET_def)
qed

lemma strftime_example: "strftime example_time = ''20240309:14:07''"
  by code_simp

lemma format_1f_example: "format_1f 122 = ''122.0''"
  by code_simp

lemma example_line_eq:
  "strftime example_time @ '' '' @ format_1f 122 @ [degree_sign] @ ''F'' = example_line"
  by (simp add: strftime_example format_1f_example example_line_def)

lemma example_tick_fields:
  "ser_io example_tick = Inr example_packet" "now_fmt example_tick = example_time"
  "file_io example_tick = WriteOk" "post_io example_tick = None"
  by (simp_all add: example_tick_def)

lemma log_temperature_example:
  "log_temperature lf example_tick =
     ([Print example_line, FileOpen lf, FileWrite (example_line @ [newline]), FileClose,
       HttpPost APPS_SCRIPT_URL example_line], None)"
proof -
  have r: "read_temperature_f (ser_io example_tick) = Inr (Some 122)"
    by (simp add: example_tick_fields read_example)
  show ?thesis
    unfolding log_temperature_present [OF r] example_tick_fields example_line_eq
    by simp
qed

lemma log_temperature_example_reading:
  assumes "ser_io env = Inr example_packet" and "now_fmt env = example_time"
  shows "log_temperature lf env =
     (case file_io env of
        OpenRaises e \<Rightarrow> ([Print example_line], Some e)
      | WriteRaises e \<Rightarrow> ([Print example_line, FileOpen lf, FileClose], Some e)
      | WriteOk \<Rightarrow>
          (case post_io env of
             None \<Rightarrow>
               ([Print example_line, FileOpen lf, FileWrite (example_line @ [newline]),
                 FileClose, HttpPost APPS_SCRIPT_URL example_line], None)
           | Some e \<Rightarrow>
               if is_Exception e
               then ([Print example_line, FileOpen lf, FileWrite (example_line @ [newline]),
                      FileClose, HttpPost APPS_SCRIPT_URL example_line,
                      Print (''Google Doc post failed: '' @ exn_str e)], None)
               else ([Print example_line, FileOpen lf, FileWrite (example_line @ [newline]),
                      FileClose, HttpPost APPS_SCRIPT_URL example_line], Some e)))"
proof -
  have r: "read_temperature_f (ser_io env) = Inr (Some 122)"
    by (simp add: assms read_example)
  show ?thesis
    unfolding log_temperature_present [OF r] assms example_line_eq ..
qed

lemma log_temperature_disk_full:
  "log_temperature lf example_disk_full =
     ([Print example_line, FileOpen lf, FileClose], Some (OSError ''No space left on device''))"
  by (simp add: log_temperature_example_reading example_disk_full_def example_tick_fields)

lemma log_temperature_offline:
  "log_temperature lf example_offline =
     ([Print example_line, FileOpen lf, FileWrite (example_line @ [newline]), FileClose,
       HttpPost APPS_SCRIPT_URL example_line,
       Print ''Google Doc post failed: connection refused''], None)"
  by (simp add: log_temperature_example_reading example_offline_def example_tick_fields)

lemma log_temperature_no_reply:
  "log_temperature lf example_no_reply = ([], Some format_None_error)"
  by (rule log_temperature_absent)
    (simp add: example_no_reply_def read_temperature_f_def PACKET_LEN_def)

section \<open>The loop and the process\<close>

lemma while_true_interrupted:
  "sleep_io r = Some e \<Longrightarrow> snd (while_true lf (r # rs)) = Some e"
  by (simp add: Let_def)

lemma while_true_tick_raises:
  "sleep_io r = None \<Longrightarrow> snd (log_temperature lf (tick r)) = Some e \<Longrightarrow>
   snd (while_true lf (r # rs)) = Some e"
  by (cases "log_temperature lf (tick r)"; cases "while_true lf rs") (simp add: Let_def)

lemma running_phase_snd:
  "snd (running_phase lf first rs) =
     (case snd (log_temperature lf first) of
        Some e \<Rightarrow> Some e
      | None \<Rightarrow> snd (while_true lf rs))"
  by (cases "log_temperature lf first"; cases "while_true lf rs")
    (simp add: running_phase_def split: option.splits)

lemma main_opened:
  assumes "open_io r = None"
    and "running_phase (LOG_FILE r) (first_tick r) (rounds r) = (out, res)"
  shows "res = None \<Longrightarrow> snd (main r) = Running"
    and "res = Some KeyboardInterrupt \<Longrightarrow>
           snd (main r) = Returned \<and> last (fst (main r)) = SerialClose"
    and "res = Some e \<Longrightarrow> e \<noteq> KeyboardInterrupt \<Longrightarrow>
           snd (main r) = Uncaught e \<and> last (fst (main r)) = SerialClose"
proof -
  show "snd (main r) = Running" if "res = None"
    using assms that unfolding main_def Let_def by simp
  show "snd (main r) = Returned \<and> last (fst (main r)) = SerialClose"
    if "res = Some KeyboardInterrupt"
    using assms that unfolding main_def Let_def by simp
  show "snd (main r) = Uncaught e \<and> last (fst (main r)) = SerialClose"
    if "res = Some e" and "e \<noteq> KeyboardInterrupt"
    using assms that unfolding main_def Let_def by (cases e) simp_all
qed

lemma main_outcome:
  assumes "open_io r = None"
  shows "snd (main r) =
     (case snd (running_phase (LOG_FILE r) (first_tick r) (rounds r)) of
        None \<Rightarrow> Running
      | Some e \<Rightarrow> if e = KeyboardInterrupt then Returned else Uncaught e)"
proof -
  obtain out res where p: "running_phase (LOG_FILE r) (first_tick r) (rounds r) = (out, res)"
    by (cases "running_phase (LOG_FILE r) (first_tick r) (rounds r)")
  show ?thesis
  proof (cases res)
    case None
    with main_opened(1) [OF assms p] p show ?thesis by simp
  next
    case (Some e)
    show ?thesis
    proof (cases "e = KeyboardInterrupt")
      case True
      with main_opened(2) [OF assms p] Some p show ?thesis by simp
    next
      case False
      with main_opened(3) [OF assms p Some] Some p show ?thesis by simp
    qed
  qed
qed

lemma main_closes:
  assumes "open_io r = None"
    and "snd (running_phase (LOG_FILE r) (first_tick r) (rounds r)) = Some e"
  shows "last (fst (main r)) = SerialClose"
proof -
  obtain out res where p: "running_phase (LOG_FILE r) (first_tick r) (rounds r) = (out, res)"
    by (cases "running_phase (LOG_FILE r) (first_tick r) (rounds r)")
  with assms(2) have res: "res = Some e" by simp
  show ?thesis
  proof (cases "e = KeyboardInterrupt")
    case True
    with main_opened(2) [OF assms(1) p] res show ?thesis by simp
  next
    case False
    with main_opened(3) [OF assms(1) p res] show ?thesis by simp
  qed
qed

lemma main_open_fails:
  assumes "open_io r = Some (SerialException m)"
  shows "snd (main r) = SysExit 1"
    and "hd (fst (main r)) = Print (''Error: could not open '' @ PORT (platform r) @ '': '' @ m)"
    and "length (fst (main r)) = 3"
  using assms by (simp_all add: main_def)

lemma exit_status_Uncaught:
  "e \<noteq> KeyboardInterrupt \<Longrightarrow> exit_status (Uncaught e) = Some 1"
  by (cases e) simp_all

lemma main_SysExit_iff:
  "snd (main r) = SysExit n \<longleftrightarrow> n = 1 \<and> (\<exists>m. open_io r = Some (SerialException m))"
proof (cases "open_io r")
  case None
  then show ?thesis
    by (simp add: main_outcome split: option.splits)
next
  case (Some e)
  then show ?thesis
    by (cases e) (auto simp: main_def)
qed

section \<open>Claims about a tick and about the process\<close>

text \<open>
  C1: the claim is that a tick whose read fails still produces a log line with an absent
  value and leaves the loop running. The code catches the serial fault and sets the
  temperature to \<open>None\<close>, as it does for a short packet, and then formats \<open>None\<close> with
  \<open>:.1f\<close>: \<open>TypeError\<close> escapes the tick before any line is printed, written or posted, and
  ends the process.
\<close>

theorem absent_reading_raises:
  "log_temperature (LOG_FILE example_run) example_no_reply = ([], Some format_None_error) \<and>
   log_temperature (LOG_FILE example_run) example_serial_fault =
     ([Print ''Serial error: device disconnected''], Some format_None_error) \<and>
   snd (main (example_run\<lparr>rounds := [example_round\<lparr>tick := example_no_reply\<rparr>, example_round]\<rparr>)) =
     Uncaught format_None_error \<and>
   exit_status
     (snd (main (example_run\<lparr>rounds := [example_round\<lparr>tick := example_no_reply\<rparr>, example_round]\<rparr>))) =
     Some 1"
proof -
  define r where "r = example_run\<lparr>rounds := [example_round\<lparr>tick := example_no_reply\<rparr>, example_round]\<rparr>"
  have f: "open_io r = None" "first_tick r = example_tick"
    "rounds r = [example_round\<lparr>tick := example_no_reply\<rparr>, example_round]"
    by (simp_all add: r_def example_run_def)
  have a: "log_temperature (LOG_FILE example_run) example_serial_fault =
     ([Print ''Serial error: device disconnected''], Some format_None_error)"
    using log_temperature_serial_fault [of example_serial_fault "''device disconnected''"]
    by (simp add: example_serial_fault_def)
  have "snd (while_true (LOG_FILE r) (rounds r)) = Some format_None_error"
    unfolding f by (rule while_true_tick_raises)
      (simp_all add: example_round_def log_temperature_no_reply)
  then have "snd (running_phase (LOG_FILE r) (first_tick r) (rounds r)) = Some format_None_error"
    by (simp add: running_phase_snd f log_temperature_example)
  then have m: "snd (main r) = Uncaught format_None_error"
    by (simp add: main_outcome [OF f(1)] format_None_error_def)
  have "exit_status (Uncaught format_None_error) = Some 1"
    by (simp add: format_None_error_def)
  with a m show ?thesis
    unfolding r_def [symmetric] by (simp add: log_temperature_no_reply)
qed

text \<open>
  C2, as stated, fails: when the write to the log file raises, nothing catches the
  exception, and the process ends with it.
\<close>

theorem log_write_failure_counterexample:
  "snd (log_temperature (LOG_FILE example_run) example_disk_full) =
     Some (OSError ''No space left on device'') \<and>
   snd (main (example_run\<lparr>first_tick := example_disk_full\<rparr>)) =
     Uncaught (OSError ''No space left on device'')"
proof -
  define r where "r = example_run\<lparr>first_tick := example_disk_full\<rparr>"
  have f: "open_io r = None" "first_tick r = example_disk_full"
    by (simp_all add: r_def example_run_def)
  have "snd (running_phase (LOG_FILE r) (first_tick r) (rounds r)) =
      Some (OSError ''No space left on device'')"
    by (simp add: running_phase_snd f log_temperature_disk_full)
  then have "snd (main r) = Uncaught (OSError ''No space left on device'')"
    by (simp add: main_outcome [OF f(1)])
  then show ?thesis
    unfolding r_def [symmetric] by (simp add: log_temperature_disk_full)
qed

text \<open>
  C2, amended: when a tick has a reading and the write to the log file raises, the file is
  closed, no diagnostic is printed and no submission is attempted; the exception escapes
  \<open>log_temperature\<close> and ends the loop; unless it is an operator interrupt it ends the
  process as an unhandled exception, after the device connection has been closed.
\<close>

theorem log_write_failure_propagates:
  assumes "read_temperature_f (ser_io env) = Inr (Some t)" and "file_io env = WriteRaises e"
  shows "log_temperature lf env =
           ([Print (strftime (now_fmt env) @ '' '' @ format_1f t @ [degree_sign] @ ''F''),
             FileOpen lf, FileClose], Some e) \<and>
         snd (while_true lf (\<lparr>now_sched = n, sleep_io = None, tick = env\<rparr> # rs)) = Some e \<and>
         (e \<noteq> KeyboardInterrupt \<longrightarrow>
            snd (main \<lparr>platform = p, LOG_FILE = lf, open_io = None, first_tick = env,
                       rounds = rs\<rparr>) = Uncaught e \<and>
            last (fst (main \<lparr>platform = p, LOG_FILE = lf, open_io = None, first_tick = env,
                             rounds = rs\<rparr>)) = SerialClose)"
proof -
  have l: "log_temperature lf env =
           ([Print (strftime (now_fmt env) @ '' '' @ format_1f t @ [degree_sign] @ ''F''),
             FileOpen lf, FileClose], Some e)"
    unfolding log_temperature_present [OF assms(1)] assms(2) by simp
  then have s: "snd (log_temperature lf env) = Some e" by simp
  have w: "snd (while_true lf (\<lparr>now_sched = n, sleep_io = None, tick = env\<rparr> # rs)) = Some e"
    by (rule while_true_tick_raises) (simp_all add: s)
  define r where "r = \<lparr>platform = p, LOG_FILE = lf, open_io = None, first_tick = env,
    rounds = rs\<rparr>"
  have f: "open_io r = None" by (simp add: r_def)
  have rp: "snd (running_phase (LOG_FILE r) (first_tick r) (rounds r)) = Some e"
    by (simp add: running_phase_snd r_def s)
  have "snd (main r) = Uncaught e \<and> last (fst (main r)) = SerialClose"
    if "e \<noteq> KeyboardInterrupt"
    using that main_closes [OF f rp] by (simp add: main_outcome [OF f] rp)
  with l w show ?thesis
    unfolding r_def by blast
qed

theorem log_write_failure_propagates_witness:
  "read_temperature_f (ser_io example_disk_full) = Inr (Some 122) \<and>
   file_io example_disk_full = WriteRaises (OSError ''No space left on device'') \<and>
   OSError ''No space left on device'' \<noteq> KeyboardInterrupt \<and>
   log_temperature [] example_disk_full =
     ([Print example_line, FileOpen [], FileClose], Some (OSError ''No space left on device'')) \<and>
   snd (main \<lparr>platform = Posix, LOG_FILE = [], open_io = None, first_tick = example_disk_full,
              rounds = []\<rparr>) = Uncaught (OSError ''No space left on device'') \<and>
   last (fst (main \<lparr>platform = Posix, LOG_FILE = [], open_io = None,
                    first_tick = example_disk_full, rounds = []\<rparr>)) = SerialClose"
proof -
  have a: "read_temperature_f (ser_io example_disk_full) = Inr (Some 122)"
    by (simp add: example_disk_full_def example_tick_fields read_example)
  have b: "file_io example_disk_full = WriteRaises (OSError ''No space left on device'')"
    by (simp add: example_disk_full_def)
  from log_write_failure_propagates [OF a b, of "[]" example_time "[]" Posix] a b
  show ?thesis
    by (simp add: log_temperature_disk_full)
qed

text \<open>
  C7, as stated, fails in one direction: when the append to the log file fails, the
  submission is not attempted.
\<close>

theorem sink_independence_counterexample:
  "fst (log_temperature (LOG_FILE example_run) example_disk_full) =
     [Print example_line, FileOpen (LOG_FILE example_run), FileClose] \<and>
   HttpPost APPS_SCRIPT_URL example_line \<notin>
     set (fst (log_temperature (LOG_FILE example_run) example_disk_full))"
  by (simp add: log_temperature_disk_full)

text \<open>
  C7, amended: the sinks are independent in one direction. For every Reading with a
  temperature, a failure of the submission (any \<open>Exception\<close>) happens after the line has been
  appended to the log file, is reported and does not end the tick. A failure to open or to
  write the log file prevents the submission: no request is made in that tick.
\<close>

theorem sinks_independent_one_way:
  "(read_temperature_f (ser_io env) = Inr (Some t) \<longrightarrow> file_io env = WriteOk \<longrightarrow>
      post_io env = Some e \<longrightarrow> is_Exception e \<longrightarrow>
        snd (log_temperature lf env) = None \<and>
        FileWrite (strftime (now_fmt env) @ '' '' @ format_1f t @ [degree_sign] @ ''F'' @
                   [newline]) \<in> set (fst (log_temperature lf env)) \<and>
        Print (''Google Doc post failed: '' @ exn_str e) \<in> set (fst (log_temperature lf env)))
   \<and>
   (file_io env \<noteq> WriteOk \<longrightarrow>
      (\<forall>url body. HttpPost url body \<notin> set (fst (log_temperature lf env))))"
proof (intro conjI impI allI)
  assume r: "read_temperature_f (ser_io env) = Inr (Some t)" and f: "file_io env = WriteOk"
    and p: "post_io env = Some e" and x: "is_Exception e"
  note l = log_temperature_present [OF r, of lf, unfolded f p, simplified, unfolded if_P [OF x]]
  show "snd (log_temperature lf env) = None"
    by (simp add: l)
  show "FileWrite (strftime (now_fmt env) @ '' '' @ format_1f t @ [degree_sign] @ ''F'' @
                   [newline]) \<in> set (fst (log_temperature lf env))"
    by (simp add: l)
  show "Print (''Google Doc post failed: '' @ exn_str e) \<in> set (fst (log_temperature lf env))"
    by (simp add: l)
next
  fix url body
  assume f: "file_io env \<noteq> WriteOk"
  show "HttpPost url body \<notin> set (fst (log_temperature lf env))"
  proof
    assume h: "HttpPost url body \<in> set (fst (log_temperature lf env))"
    then obtain t where r: "read_temperature_f (ser_io env) = Inr (Some t)"
      using log_temperature_post_only_present by blast
    from h f show False
      unfolding log_temperature_present [OF r] by (cases "file_io env") simp_all
  qed
qed

theorem sinks_independent_one_way_witness:
  "read_temperature_f (ser_io example_offline) = Inr (Some 122) \<and>
   file_io example_offline = WriteOk \<and>
   post_io example_offline = Some (RequestException ''connection refused'') \<and>
   is_Exception (RequestException ''connection refused'') \<and>
   snd (log_temperature [] example_offline) = None \<and>
   FileWrite (example_line @ [newline]) \<in> set (fst (log_temperature [] example_offline)) \<and>
   file_io example_disk_full \<noteq> WriteOk \<and>
   HttpPost APPS_SCRIPT_URL example_line \<notin> set (fst (log_temperature [] example_disk_full))"
proof -
  have a: "read_temperature_f (ser_io example_offline) = Inr (Some 122)"
    "file_io example_offline = WriteOk"
    "post_io example_offline = Some (RequestException ''connection refused'')"
    "is_Exception (RequestException ''connection refused'')"
    by (simp_all add: example_offline_def example_tick_fields read_example)
  have b: "file_io example_disk_full \<noteq> WriteOk"
    by (simp add: example_disk_full_def)
  from sinks_independent_one_way [of example_offline 122 "RequestException ''connection refused''" "[]"]
    a
  have "snd (log_temperature [] example_offline) = None" by blast
  moreover have "FileWrite (example_line @ [newline]) \<in> set (fst (log_temperature [] example_offline))"
    by (simp add: log_temperature_offline)
  moreover from sinks_independent_one_way [of example_disk_full 122 "KeyboardInterrupt" "[]"] b
  have "HttpPost APPS_SCRIPT_URL example_line \<notin> set (fst (log_temperature [] example_disk_full))"
    by blast
  ultimately show ?thesis using a b by blast
qed

text \<open>
  C8, as stated, fails: the body of the POST is not the newline-terminated Log Line that is
  appended to the log file.
\<close>

theorem post_body_counterexample:
  "fst (log_temperature (LOG_FILE example_run) example_tick) =
     [Print example_line, FileOpen (LOG_FILE example_run),
      FileWrite (spec_log_line example_time 122), FileClose,
      HttpPost APPS_SCRIPT_URL example_line] \<and>
   example_line \<noteq> spec_log_line example_time 122"
proof -
  have "spec_log_line example_time 122 = example_line @ [newline]"
    unfolding spec_log_line_def example_line_eq [symmetric] by simp
  then show ?thesis
    by (simp add: log_temperature_example)
qed

text \<open>
  C8, amended: for every Reading, the body of the HTTP POST to the remote endpoint is the
  Log Line text without its terminating newline: the text appended to the log file is the
  POSTed body followed by a newline, and that text is the Log Line
  \<open><YYYYMMDD:HH:MM> <temperature, one decimal>\<degree>F\<close>, newline-terminated.
\<close>

theorem post_body_is_line_without_newline:
  assumes "HttpPost url body \<in> set (fst (log_temperature lf env))"
  shows "url = APPS_SCRIPT_URL \<and>
         FileWrite (body @ [newline]) \<in> set (fst (log_temperature lf env)) \<and>
         (\<exists>t. read_temperature_f (ser_io env) = Inr (Some t) \<and>
              body @ [newline] = spec_log_line (now_fmt env) t)"
proof -
  from assms obtain t where r: "read_temperature_f (ser_io env) = Inr (Some t)"
    using log_temperature_post_only_present by blast
  define line where "line = strftime (now_fmt env) @ '' '' @ format_1f t @ [degree_sign] @ ''F''"
  have s: "spec_log_line (now_fmt env) t = line @ [newline]"
    by (simp add: spec_log_line_def line_def)
  note l = log_temperature_present [OF r, of lf, folded line_def]
  from assms have "url = APPS_SCRIPT_URL \<and> body = line \<and>
      FileWrite (line @ [newline]) \<in> set (fst (log_temperature lf env))"
    unfolding l by (cases "file_io env"; cases "post_io env") (auto split: if_splits)
  with r s show ?thesis by auto
qed

theorem post_body_is_line_without_newline_witness:
  "HttpPost APPS_SCRIPT_URL example_line \<in> set (fst (log_temperature [] example_tick)) \<and>
   FileWrite (example_line @ [newline]) \<in> set (fst (log_temperature [] example_tick)) \<and>
   read_temperature_f (ser_io example_tick) = Inr (Some 122) \<and>
   example_line @ [newline] = spec_log_line (now_fmt example_tick) 122"
proof -
  have h: "HttpPost APPS_SCRIPT_URL example_line \<in> set (fst (log_temperature [] example_tick))"
    by (simp add: log_temperature_example)
  have r: "read_temperature_f (ser_io example_tick) = Inr (Some 122)"
    by (simp add: example_tick_fields read_example)
  from post_body_is_line_without_newline [OF h] h r show ?thesis
    by auto
qed

text \<open>
  C9, as stated, fails: the exit status is 1 although the device connection was opened,
  when an exception escapes a tick (here the write to the log file fails in the first one).
\<close>

theorem exit_status_counterexample:
  "open_io (example_run\<lparr>first_tick := example_disk_full\<rparr>) = None \<and>
   exit_status (snd (main (example_run\<lparr>first_tick := example_disk_full\<rparr>))) = Some 1"
proof -
  define r where "r = example_run\<lparr>first_tick := example_disk_full\<rparr>"
  have f: "open_io r = None" "first_tick r = example_disk_full"
    by (simp_all add: r_def example_run_def)
  have "snd (running_phase (LOG_FILE r) (first_tick r) (rounds r)) =
      Some (OSError ''No space left on device'')"
    by (simp add: running_phase_snd f log_temperature_disk_full)
  then have "snd (main r) = Uncaught (OSError ''No space left on device'')"
    by (simp add: main_outcome [OF f(1)])
  with f(1) show ?thesis
    unfolding r_def [symmetric] by simp
qed

text \<open>
  C9, amended: the process ends through \<open>sys.exit(1)\<close>, after printing the diagnostic and the
  two lines of the platform-specific hint, exactly when opening the device connection raises
  \<open>SerialException\<close> at startup. Once the connection is open, the exit status is 0 exactly
  when the Running phase is ended by an operator interrupt (as one that arrives during the
  inter-tick sleep), and 1 exactly when another exception escapes a tick; in both cases the
  device connection is closed first.
\<close>

theorem main_exit_status:
  "(snd (main r) = SysExit 1 \<longleftrightarrow> (\<exists>m. open_io r = Some (SerialException m))) \<and>
   (\<forall>m. open_io r = Some (SerialException m) \<longrightarrow>
      hd (fst (main r)) = Print (''Error: could not open '' @ PORT (platform r) @ '': '' @ m) \<and>
      length (fst (main r)) = 3) \<and>
   (open_io r = None \<longrightarrow>
      (exit_status (snd (main r)) = Some 0 \<longleftrightarrow>
         snd (running_phase (LOG_FILE r) (first_tick r) (rounds r)) = Some KeyboardInterrupt) \<and>
      (exit_status (snd (main r)) = Some 1 \<longleftrightarrow>
         (\<exists>e. snd (running_phase (LOG_FILE r) (first_tick r) (rounds r)) = Some e \<and>
              e \<noteq> KeyboardInterrupt)) \<and>
      (snd (running_phase (LOG_FILE r) (first_tick r) (rounds r)) \<noteq> None \<longrightarrow>
         last (fst (main r)) = SerialClose)) \<and>
   (sleep_io rd = Some KeyboardInterrupt \<longrightarrow>
      snd (while_true lf (rd # rs)) = Some KeyboardInterrupt)"
proof (intro conjI allI impI)
  show "snd (main r) = SysExit 1 \<longleftrightarrow> (\<exists>m. open_io r = Some (SerialException m))"
    by (simp add: main_SysExit_iff)
next
  fix m
  assume "open_io r = Some (SerialException m)"
  then show "hd (fst (main r)) =
      Print (''Error: could not open '' @ PORT (platform r) @ '': '' @ m)"
    and "length (fst (main r)) = 3"
    by (rule main_open_fails(2), rule main_open_fails(3))
next
  assume o: "open_io r = None"
  show "exit_status (snd (main r)) = Some 0 \<longleftrightarrow>
      snd (running_phase (LOG_FILE r) (first_tick r) (rounds r)) = Some KeyboardInterrupt"
    by (simp add: main_outcome [OF o] exit_status_Uncaught split: option.splits)
  show "exit_status (snd (main r)) = Some 1 \<longleftrightarrow>
      (\<exists>e. snd (running_phase (LOG_FILE r) (first_tick r) (rounds r)) = Some e \<and>
           e \<noteq> KeyboardInterrupt)"
    by (simp add: main_outcome [OF o] exit_status_Uncaught split: option.splits)
  assume "snd (running_phase (LOG_FILE r) (first_tick r) (rounds r)) \<noteq> None"
  then obtain e where "snd (running_phase (LOG_FILE r) (first_tick r) (rounds r)) = Some e"
    by blast
  with o show "last (fst (main r)) = SerialClose"
    by (rule main_closes)
next
  assume "sleep_io rd = Some KeyboardInterrupt"
  then show "snd (while_true lf (rd # rs)) = Some KeyboardInterrupt"
    by (rule while_true_interrupted)
qed

theorem main_exit_status_witness:
  "open_io (example_run\<lparr>open_io := Some (SerialException ''permission denied'')\<rparr>) =
     Some (SerialException ''permission denied'') \<and>
   snd (main (example_run\<lparr>open_io := Some (SerialException ''permission denied'')\<rparr>)) =
     SysExit 1 \<and>
   hd (fst (main (example_run\<lparr>open_io := Some (SerialException ''permission denied'')\<rparr>))) =
     Print ''Error: could not open /dev/ttyUSB0: permission denied'' \<and>
   open_io (example_run\<lparr>rounds := [example_interrupt]\<rparr>) = None \<and>
   sleep_io example_interrupt = Some KeyboardInterrupt \<and>
   snd (running_phase (LOG_FILE (example_run\<lparr>rounds := [example_interrupt]\<rparr>))
          (first_tick (example_run\<lparr>rounds := [example_interrupt]\<rparr>))
          (rounds (example_run\<lparr>rounds := [example_interrupt]\<rparr>))) = Some KeyboardInterrupt \<and>
   exit_status (snd (main (example_run\<lparr>rounds := [example_interrupt]\<rparr>))) = Some 0 \<and>
   last (fst (main (example_run\<lparr>rounds := [example_interrupt]\<rparr>))) = SerialClose"
proof -
  define r1 where "r1 = example_run\<lparr>open_io := Some (SerialException ''permission denied'')\<rparr>"
  define r2 where "r2 = example_run\<lparr>rounds := [example_interrupt]\<rparr>"
  have o1: "open_io r1 = Some (SerialException ''permission denied'')"
    and p1: "platform r1 = Posix"
    by (simp_all add: r1_def example_run_def)
  have o2: "open_io r2 = None" and f2: "first_tick r2 = example_tick"
    and rs2: "rounds r2 = [example_interrupt]"
    by (simp_all add: r2_def example_run_def)
  have s: "sleep_io example_interrupt = Some KeyboardInterrupt"
    by (simp add: example_interrupt_def)
  from main_exit_status [of r2 example_interrupt "LOG_FILE r2" "[]"] s
  have w: "snd (while_true (LOG_FILE r2) [example_interrupt]) = Some KeyboardInterrupt"
    by blast
  have rp: "snd (running_phase (LOG_FILE r2) (first_tick r2) (rounds r2)) = Some KeyboardInterrupt"
    unfolding running_phase_snd f2 rs2 w by (simp add: log_temperature_example)
  from main_exit_status [of r1 example_interrupt "[]" "[]"] o1 p1
  have a: "snd (main r1) = SysExit 1"
    and b: "hd (fst (main r1)) = Print ''Error: could not open /dev/ttyUSB0: permission denied''"
    by auto
  from main_exit_status [of r2 example_interrupt "[]" "[]"] o2 rp
  have c: "exit_status (snd (main r2)) = Some 0" and d: "last (fst (main r2)) = SerialClose"
    by auto
  from o1 a b o2 s rp c d show ?thesis
    unfolding r1_def r2_def by blast
qed

end
